theory Spec2Isabelle
  imports Main "HOL-Library.Sublist"
begin

section \<open>Text, errors and the constants of XXDParser\<close>

text \<open>
  A Python \<open>str\<close> is modelled as a \<open>string\<close>, one \<open>char\<close> per code point, for code
  points below 256 (the dump tool writes ASCII only). Every exception the modelled code
  can raise is a value of \<open>error\<close>; a function that may raise returns \<open>error + 'a\<close>.
\<close>

datatype error = ValueError | IndexError | OverflowError | TypeError

abbreviation NL :: char where
  "NL \<equiv> CHR 0x0A"

abbreviation ESC :: char where
  "ESC \<equiv> CHR 0x1B"

definition null_color :: int where
  "null_color = 59"

definition address_separator :: string where
  "address_separator = '': ''"

definition hex_separator :: string where
  "hex_separator = ''  ''"

text \<open>
  The glyph U+25FC lies outside the 8-bit range; it is carried as the three bytes that
  \<open>print\<close> writes for it.
\<close>

definition pixel_char :: string where
  "pixel_char = [CHR 0xE2, CHR 0x97, CHR 0xBC]"

datatype regex = regex_bin | regex_hex

section \<open>The tokenizer: \<open>re.split\<close> with one capturing group\<close>

fun token_length :: "regex \<Rightarrow> nat" where
  "token_length regex_bin = 8"
| "token_length regex_hex = 2"

definition in_range :: "char \<Rightarrow> char \<Rightarrow> char \<Rightarrow> bool" where
  "in_range lo hi c \<longleftrightarrow>
     (of_char lo :: nat) \<le> of_char c \<and> (of_char c :: nat) \<le> of_char hi"

fun in_class :: "regex \<Rightarrow> char \<Rightarrow> bool" where
  "in_class regex_bin c = (c = CHR ''0'' \<or> c = CHR ''1'')"
| "in_class regex_hex c =
     (in_range CHR ''A'' CHR ''F'' c \<or> in_range CHR ''a'' CHR ''f'' c
      \<or> in_range CHR ''0'' CHR ''9'' c)"

text \<open>The pattern matches at the head of \<open>s\<close>: \<open>{2}\<close> or \<open>{8}\<close> characters of the class.\<close>

definition re_match_at :: "regex \<Rightarrow> string \<Rightarrow> bool" where
  "re_match_at rx s \<longleftrightarrow>
     token_length rx \<le> length s \<and> list_all (in_class rx) (take (token_length rx) s)"

text \<open>
  \<open>re.split\<close> scans from the left for the next match, emits the text before it and the
  captured group, and goes on behind the match; the text after the last match comes last.
  \<open>frag\<close> is the text passed over since the previous match.
\<close>

fun re_split_from :: "regex \<Rightarrow> string \<Rightarrow> string \<Rightarrow> string list" where
  "re_split_from rx frag [] = [frag]"
| "re_split_from rx frag (c # cs) =
     (if re_match_at rx (c # cs)
      then frag # take (token_length rx) (c # cs)
             # re_split_from rx [] (drop (token_length rx - 1) cs)
      else re_split_from rx (frag @ [c]) cs)"

definition re_split :: "regex \<Rightarrow> string \<Rightarrow> string list" where
  "re_split rx s = re_split_from rx [] s"

section \<open>The line reassembler\<close>

text \<open>\<open>s.split(sep, 1)\<close>: one string when \<open>sep\<close> does not occur, else the two sides of
  its first occurrence.\<close>

fun split1 :: "string \<Rightarrow> string \<Rightarrow> string list" where
  "split1 sep [] = [[]]"
| "split1 sep (c # cs) =
     (if prefix sep (c # cs) then [[], drop (length sep) (c # cs)]
      else (case split1 sep cs of
              [a, b] \<Rightarrow> [c # a, b]
            | _ \<Rightarrow> [c # cs]))"

text \<open>Unpacking into two names raises \<open>ValueError\<close> unless the list has two elements.\<close>

definition format_line :: "string \<Rightarrow> (string \<Rightarrow> error + string) \<Rightarrow> error + string" where
  "format_line line colorizer =
     (if line = [CHR ''*'', NL] then Inr line
      else case split1 address_separator line of
        [address, hex_ascii] \<Rightarrow>
          (case split1 hex_separator hex_ascii of
             [hex_data, ascii_data] \<Rightarrow>
               (case colorizer hex_data of
                  Inl e \<Rightarrow> Inl e
                | Inr colored \<Rightarrow>
                    Inr (address @ address_separator @ colored @ hex_separator
                         @ butlast ascii_data))
           | _ \<Rightarrow> Inl ValueError)
      | _ \<Rightarrow> Inl ValueError)"

section \<open>The gradient palette\<close>

record XXDParser =
  base :: nat
  regex :: regex

record GradientPalette = XXDParser +
  palette :: "int list"

definition XXDParser_init :: "bool \<Rightarrow> XXDParser" where
  "XXDParser_init binary =
     \<lparr>base = (if binary then 2 else 16),
      regex = (if binary then regex_bin else regex_hex)\<rparr>"

definition base_palette :: "int list" where
  "base_palette =
     [131, 167, 203, 209, 173, 137, 179, 221, 227, 191, 149, 120, 78, 79, 116, 117,
      74, 75, 68, 105, 62, 98, 97, 134, 176, 207, 164, 163, 126, 132, 168]"

text \<open>
  \<open>deque.rotate(n)\<close> moves the elements \<open>n\<close> steps to the right, and to the left when
  \<open>n\<close> is negative (\<open>List.rotate\<close> moves to the left). Its argument is converted to a
  C \<open>ssize_t\<close>, of 64 bits here: an integer outside that range raises \<open>OverflowError\<close>.
\<close>

definition fits_ssize_t :: "int \<Rightarrow> bool" where
  "fits_ssize_t n \<longleftrightarrow> - (2 ^ 63) \<le> n \<and> n < 2 ^ 63"

definition deque_rotate :: "int \<Rightarrow> 'a list \<Rightarrow> error + 'a list" where
  "deque_rotate n xs =
     (if \<not> fits_ssize_t n then Inl OverflowError
      else if xs = [] then Inr xs
      else Inr (rotate (nat ((- n) mod int (length xs))) xs))"

definition GradientPalette_rotate :: "int \<Rightarrow> error + int list" where
  "GradientPalette_rotate num = deque_rotate (- num) base_palette"

text \<open>
  \<open>GradientPalette.__init__\<close> sets \<open>base\<close> and \<open>regex\<close> through \<open>XXDParser.__init__\<close>
  and then the rotated palette; an exception of \<open>rotate\<close> leaves no instance.
\<close>

definition GradientPalette_init :: "bool \<Rightarrow> int \<Rightarrow> error + GradientPalette" where
  "GradientPalette_init binary rotate_index =
     (case GradientPalette_rotate rotate_index of
        Inl e \<Rightarrow> Inl e
      | Inr rotated \<Rightarrow>
          Inr \<lparr>base = base (XXDParser_init binary), regex = regex (XXDParser_init binary),
               palette = rotated\<rparr>)"

text \<open>\<open>d[i]\<close> on a deque: a negative index counts from the right end, and an index
  outside the deque raises \<open>IndexError\<close>.\<close>

definition deque_getitem :: "'a list \<Rightarrow> int \<Rightarrow> error + 'a" where
  "deque_getitem xs i =
     (if 0 \<le> i \<and> i < int (length xs) then Inr (xs ! nat i)
      else if i < 0 \<and> - int (length xs) \<le> i then Inr (xs ! nat (i + int (length xs)))
      else Inl IndexError)"

text \<open>
  \<open>int(n / 256.0)\<close> for an integer \<open>n\<close>. The division first turns \<open>n\<close> into a double
  and raises \<open>OverflowError\<close> when \<open>n\<close> rounds beyond the largest one. Dividing a double
  by 256 is exact and \<open>int\<close> cuts the fraction off, towards zero. The double of \<open>n\<close>
  is \<open>n\<close> itself below \<open>2 ^ 53\<close>; from there on the quotient, rounded or not, is at
  least \<open>2 ^ 45\<close> in size, beyond every index of the 31-entry palette, so the lookup
  raises the same \<open>IndexError\<close> for the exact quotient as for the rounded one.
\<close>

definition float_overflows :: "int \<Rightarrow> bool" where
  "float_overflows n \<longleftrightarrow> 2 ^ 1024 - 2 ^ 970 \<le> \<bar>n\<bar>"

definition int_truediv_256 :: "int \<Rightarrow> int" where
  "int_truediv_256 n = (if n < 0 then - ((- n) div 256) else n div 256)"

definition color_picker :: "GradientPalette \<Rightarrow> int \<Rightarrow> error + int" where
  "color_picker self byte =
     (if byte = 0 then Inr null_color
      else if float_overflows (int (length (palette self)) * byte) then Inl OverflowError
      else deque_getitem (palette self)
             (int_truediv_256 (int (length (palette self)) * byte)))"

section \<open>The token colorizer\<close>

text \<open>\<open>"%d" % i\<close>: the decimal digits of an integer, with a minus sign when negative.\<close>

fun decimal :: "nat \<Rightarrow> string" where
  "decimal n =
     (if n < 10 then [''0123456789'' ! n]
      else decimal (n div 10) @ [''0123456789'' ! (n mod 10)])"

declare decimal.simps [simp del]

definition format_d :: "int \<Rightarrow> string" where
  "format_d i = (if i < 0 then CHR ''-'' # decimal (nat (- i)) else decimal (nat i))"

definition colorize :: "string \<Rightarrow> int \<Rightarrow> string" where
  "colorize s vt100_index =
     ESC # ''[38;5;'' @ format_d vt100_index @ ''m'' @ s @ ESC # ''[0m''"

text \<open>
  The characters \<open>str.strip()\<close> removes, among the code points below 256: tab to
  carriage return, the four separators \<open>0x1C\<close> to \<open>0x1F\<close>, the space, \<open>0x85\<close> and
  \<open>0xA0\<close>.
\<close>

definition py_isspace :: "char \<Rightarrow> bool" where
  "py_isspace c \<longleftrightarrow>
     in_range (CHR 0x09) (CHR 0x0D) c \<or> in_range (CHR 0x1C) (CHR 0x20) c
     \<or> c = CHR 0x85 \<or> c = CHR 0xA0"

definition py_strip :: "string \<Rightarrow> string" where
  "py_strip s = rev (dropWhile py_isspace (rev (dropWhile py_isspace s)))"

text \<open>
  \<open>int(s, base)\<close> for a string and base 2 or 16. The string is first brought to ASCII:
  an ASCII string stays as it is; otherwise a whitespace character from 127 up becomes a
  space and any other character from 127 up becomes \<open>?\<close>, where the string is cut
  (no code point from 127 to 255 is a decimal digit). The numeral is then read as:
  C whitespace, an optional sign, an optional base mark \<open>0x\<close> or \<open>0b\<close> with at most one
  underscore behind it, digits of the base with single underscores between them, C
  whitespace. Anything else raises \<open>ValueError\<close>.
\<close>

definition c_isspace :: "char \<Rightarrow> bool" where
  "c_isspace c \<longleftrightarrow> in_range (CHR 0x09) (CHR 0x0D) c \<or> c = CHR 0x20"

fun to_ascii_from :: "string \<Rightarrow> string" where
  "to_ascii_from [] = []"
| "to_ascii_from (c # cs) =
     (if (of_char c :: nat) < 127 then c # to_ascii_from cs
      else if py_isspace c then CHR 0x20 # to_ascii_from cs
      else [CHR ''?''])"

definition to_ascii :: "string \<Rightarrow> string" where
  "to_ascii s = (if list_all (\<lambda>c. (of_char c :: nat) < 128) s then s else to_ascii_from s)"

definition digit_value :: "char \<Rightarrow> nat" where
  "digit_value c =
     (if in_range CHR ''0'' CHR ''9'' c then of_char c - 48
      else if in_range CHR ''a'' CHR ''z'' c then of_char c - 87
      else if in_range CHR ''A'' CHR ''Z'' c then of_char c - 55
      else 37)"

definition skip_sign :: "string \<Rightarrow> bool \<times> string" where
  "skip_sign s =
     (case s of
        [] \<Rightarrow> (False, s)
      | c # r \<Rightarrow>
          if c = CHR ''+'' then (False, r)
          else if c = CHR ''-'' then (True, r)
          else (False, s))"

definition base_mark :: "nat \<Rightarrow> char \<Rightarrow> bool" where
  "base_mark b x \<longleftrightarrow>
     b = 16 \<and> (x = CHR ''x'' \<or> x = CHR ''X'') \<or> b = 2 \<and> (x = CHR ''b'' \<or> x = CHR ''B'')"

definition skip_base_mark :: "nat \<Rightarrow> string \<Rightarrow> string" where
  "skip_base_mark b s =
     (case s of
        z # x # r \<Rightarrow>
          if z = CHR ''0'' \<and> base_mark b x
          then (case r of
                  [] \<Rightarrow> r
                | u # r' \<Rightarrow> if u = CHR ''_'' then r' else r)
          else s
      | _ \<Rightarrow> s)"

definition digit_or_underscore :: "nat \<Rightarrow> char \<Rightarrow> bool" where
  "digit_or_underscore b c \<longleftrightarrow> digit_value c < b \<or> c = CHR ''_''"

definition well_grouped :: "string \<Rightarrow> bool" where
  "well_grouped ds \<longleftrightarrow>
     ds \<noteq> [] \<and> hd ds \<noteq> CHR ''_'' \<and> last ds \<noteq> CHR ''_'' \<and> \<not> sublist ''__'' ds"

definition digits_value :: "nat \<Rightarrow> string \<Rightarrow> int" where
  "digits_value b ds =
     foldl (\<lambda>v c. v * int b + int (digit_value c)) 0 (filter (\<lambda>c. c \<noteq> CHR ''_'') ds)"

definition py_int :: "string \<Rightarrow> nat \<Rightarrow> error + int" where
  "py_int u b =
     (let (negative, s) = skip_sign (dropWhile c_isspace (to_ascii u));
          body = skip_base_mark b s;
          ds = takeWhile (digit_or_underscore b) body;
          rest = dropWhile (digit_or_underscore b) body
      in if well_grouped ds \<and> dropWhile c_isspace rest = []
         then Inr (if negative then - digits_value b ds else digits_value b ds)
         else Inl ValueError)"

definition map_color :: "GradientPalette \<Rightarrow> bool \<Rightarrow> string \<Rightarrow> error + string" where
  "map_color self pixelate byte =
     (if py_strip byte = [] then Inr byte
      else case py_int byte (base self) of
        Inl e \<Rightarrow> Inl e
      | Inr v \<Rightarrow>
          (case color_picker self v of
             Inl e \<Rightarrow> Inl e
           | Inr vt100_index \<Rightarrow>
               Inr (colorize (if pixelate then pixel_char else byte) vt100_index)))"

text \<open>\<open>"".join\<close> draws the colored fragments one by one, in order; the first one that
  raises ends the call.\<close>

fun join_colored :: "(string \<Rightarrow> error + string) \<Rightarrow> string list \<Rightarrow> error + string" where
  "join_colored f [] = Inr []"
| "join_colored f (b # bs) =
     (case f b of
        Inl e \<Rightarrow> Inl e
      | Inr x \<Rightarrow> (case join_colored f bs of Inl e \<Rightarrow> Inl e | Inr r \<Rightarrow> Inr (x @ r)))"

definition parse :: "GradientPalette \<Rightarrow> string \<Rightarrow> bool \<Rightarrow> error + string" where
  "parse self hex_data pixelate =
     join_colored (map_color self pixelate) (re_split (regex self) hex_data)"

section \<open>The loop of \<open>main\<close>\<close>

text \<open>
  \<open>main\<close> builds the parser \<open>GradientPalette(False, args.rotate)\<close> once, before it
  reads a line, and the colorizer \<open>lambda line: parser.parse(line, args.pixelate)\<close>
  over it; then it prints \<open>format_line\<close> of every line of the dump; \<open>print\<close> writes its
  argument and a newline. The loop returns what was written and the exception that
  ended it, if any.
\<close>

definition main_colorizer :: "GradientPalette \<Rightarrow> bool \<Rightarrow> string \<Rightarrow> error + string" where
  "main_colorizer parser pixelate line = parse parser line pixelate"

fun main_loop :: "(string \<Rightarrow> error + string) \<Rightarrow> string list \<Rightarrow> string \<times> error option" where
  "main_loop colorizer [] = ([], None)"
| "main_loop colorizer (line # lines) =
     (case format_line line colorizer of
        Inl e \<Rightarrow> ([], Some e)
      | Inr out \<Rightarrow>
          (case main_loop colorizer lines of
             (printed, raised) \<Rightarrow> (out @ [NL] @ printed, raised)))"

section \<open>The classes and the constructor of AsciiPalette\<close>

text \<open>
  The classes of the program with their method resolution orders, as the \<open>class\<close>
  statements fix them. \<open>super(t, obj)\<close> raises \<open>TypeError\<close> unless \<open>t\<close> is among the
  classes of \<open>obj\<close>; otherwise it stands for the class behind \<open>t\<close> in that order.
  \<open>AsciiPalette.__init__\<close> calls \<open>super(GradientPalette, self)\<close> before it sets any
  attribute; the attributes it would set are those of a \<open>GradientPalette\<close>.
\<close>

datatype py_class = object_c | XXDParser_c | GradientPalette_c | AsciiPalette_c

fun mro :: "py_class \<Rightarrow> py_class list" where
  "mro object_c = [object_c]"
| "mro XXDParser_c = [XXDParser_c, object_c]"
| "mro GradientPalette_c = [GradientPalette_c, XXDParser_c, object_c]"
| "mro AsciiPalette_c = [AsciiPalette_c, XXDParser_c, object_c]"

definition py_super :: "py_class \<Rightarrow> py_class \<Rightarrow> error + py_class" where
  "py_super t obj_class =
     (if t \<in> set (mro obj_class)
      then (case dropWhile (\<lambda>c. c \<noteq> t) (mro obj_class) of
              _ # next_class # _ \<Rightarrow> Inr next_class
            | _ \<Rightarrow> Inr object_c)
      else Inl TypeError)"

definition AsciiPalette_init :: "bool \<Rightarrow> int \<Rightarrow> error + GradientPalette" where
  "AsciiPalette_init binary rotate_index =
     (case py_super GradientPalette_c AsciiPalette_c of
        Inl e \<Rightarrow> Inl e
      | Inr parent \<Rightarrow>
          (case GradientPalette_rotate rotate_index of
             Inl e \<Rightarrow> Inl e
           | Inr rotated \<Rightarrow>
               Inr \<lparr>base = base (XXDParser_init binary),
                    regex = regex (XXDParser_init binary), palette = rotated\<rparr>))"

section \<open>Notions of the specification\<close>

text \<open>
  The documented grammar of the hex field: pairs of hex digits and spaces, in any
  arrangement (single spaces between groups of pairs, spaces at either end).
\<close>

fun hex_field :: "string \<Rightarrow> bool" where
  "hex_field [] = True"
| "hex_field [c] = (c = CHR 0x20)"
| "hex_field (c # d # cs) =
     (if c = CHR 0x20 then hex_field (d # cs)
      else in_class regex_hex c \<and> in_class regex_hex d \<and> hex_field cs)"

definition blank :: "string \<Rightarrow> bool" where
  "blank f \<longleftrightarrow> list_all (\<lambda>c. c = CHR 0x20) f"

definition hex_token :: "string \<Rightarrow> bool" where
  "hex_token f \<longleftrightarrow> length f = 2 \<and> list_all (in_class regex_hex) f"

text \<open>
  Stripping the color markers: every escape sequence that \<open>colorize\<close> can write, the
  color mark \<open>ESC [38;5;\<close> digits \<open>m\<close> and the reset \<open>ESC [0m\<close>, is deleted, reading
  from the left.
\<close>

definition is_digit :: "char \<Rightarrow> bool" where
  "is_digit c \<longleftrightarrow> in_range CHR ''0'' CHR ''9'' c"

definition marker_length :: "string \<Rightarrow> nat" where
  "marker_length s =
     (if prefix (ESC # ''[0m'') s then 4
      else if prefix (ESC # ''[38;5;'') s
        then (let ds = takeWhile is_digit (drop 7 s)
              in if ds \<noteq> [] \<and> prefix ''m'' (drop (7 + length ds) s)
                 then 7 + length ds + 1 else 0)
      else 0)"

fun strip_markers :: "string \<Rightarrow> string" where
  "strip_markers [] = []"
| "strip_markers (c # cs) =
     (if 0 < marker_length (c # cs)
      then strip_markers (drop (marker_length (c # cs) - 1) cs)
      else c # strip_markers cs)"

section \<open>Auxiliary notions of the proofs\<close>

text \<open>
  The table and the parser that a construction returns when it returns: the ramp moved
  \<open>r mod 31\<close> places to the left.
\<close>

definition rotated_palette :: "int \<Rightarrow> int list" where
  "rotated_palette r = rotate (nat (r mod 31)) base_palette"

definition built_parser :: "bool \<Rightarrow> int \<Rightarrow> GradientPalette" where
  "built_parser binary r =
     \<lparr>base = base (XXDParser_init binary), regex = regex (XXDParser_init binary),
      palette = rotated_palette r\<rparr>"

text \<open>The characters a numeral read by \<open>int\<close> cannot hold, excluded.\<close>

definition plain_char :: "char \<Rightarrow> bool" where
  "plain_char c \<longleftrightarrow> c \<noteq> ESC \<and> c \<noteq> CHR ''?''"

section \<open>Properties of the tokenizer\<close>

lemma token_length_pos: "0 < token_length rx"
  by (cases rx) simp_all

lemma take_token_Cons:
  "take (token_length rx) (c # cs) = c # take (token_length rx - 1) cs"
  using token_length_pos [of rx] by (cases "token_length rx") simp_all

lemma concat_re_split_from: "concat (re_split_from rx frag s) = frag @ s"
proof (induction rx frag s rule: re_split_from.induct)
  case (1 rx frag)
  show ?case by simp
next
  case (2 rx frag c cs)
  show ?case
  proof (cases "re_match_at rx (c # cs)")
    case True
    with "2.IH"(1) show ?thesis
      by (simp add: take_token_Cons)
  next
    case False
    with "2.IH"(2) show ?thesis by simp
  qed
qed

text \<open>
  C2. Lossless split: for either token pattern and every input string, the fragments that
  \<open>re.split\<close> returns, concatenated in order, are the input string.
\<close>

theorem re_split_lossless: "concat (re_split rx s) = s"
  by (simp add: re_split_def concat_re_split_from)

section \<open>Properties of the line reassembler\<close>

text \<open>
  C7. The elision marker, \<open>*\<close> and a newline, is returned as it is, whatever the
  colorizer.
\<close>

theorem format_line_marker: "format_line [CHR ''*'', NL] colorizer = Inr [CHR ''*'', NL]"
  by (simp add: format_line_def)

section \<open>Properties of the gradient palette\<close>

lemma length_base_palette: "length base_palette = 31"
  by (simp add: base_palette_def)

lemma base_palette_nonempty: "base_palette \<noteq> []"
  by (simp add: base_palette_def)

lemma rotated_eq: "rotated_palette r = rotate (nat (r mod 31)) base_palette"
  by (simp add: rotated_palette_def)

lemma GradientPalette_rotate_eq:
  "GradientPalette_rotate r
     = (if fits_ssize_t (- r) then Inr (rotated_palette r) else Inl OverflowError)"
  by (simp add: GradientPalette_rotate_def deque_rotate_def rotated_palette_def
      length_base_palette base_palette_nonempty)

lemma GradientPalette_init_eq:
  "GradientPalette_init binary r
     = (if fits_ssize_t (- r) then Inr (built_parser binary r) else Inl OverflowError)"
  by (simp add: GradientPalette_init_def GradientPalette_rotate_eq built_parser_def)

lemma GradientPalette_init_Inr:
  "GradientPalette_init binary r = Inr self \<Longrightarrow> self = built_parser binary r"
  by (simp add: GradientPalette_init_eq split: if_splits)

lemma length_rotated [simp]: "length (rotated_palette r) = 31"
  by (simp add: rotated_eq length_base_palette)

lemma set_rotated: "set (rotated_palette r) = set base_palette"
  by (simp add: rotated_eq)

lemma rotated_nth:
  "i < 31 \<Longrightarrow> rotated_palette r ! i = base_palette ! ((nat (r mod 31) + i) mod 31)"
  by (simp add: rotated_eq nth_rotate length_base_palette)

lemma palette_built [simp]:
  "palette (built_parser binary r) = rotated_palette r"
  by (simp add: built_parser_def)

lemma null_color_not_in_ramp: "null_color \<notin> set base_palette"
  by (simp add: null_color_def base_palette_def)

lemma double_range_bound: "(2::int) ^ 13 \<le> 2 ^ 1024 - 2 ^ 970"
proof -
  have "(2::int) ^ 970 * 2 ^ 1 \<le> 2 ^ 970 * 2 ^ 54"
    by (rule mult_left_mono) simp_all
  then have "(2::int) ^ 970 * 2 \<le> 2 ^ 1024"
    by (simp only: power_add [symmetric] power_one_right) simp
  moreover have "(2::int) ^ 13 \<le> 2 ^ 970"
    by (rule power_increasing) simp_all
  ultimately show ?thesis by linarith
qed

lemma below_bound:
  "(2::int) ^ 13 \<le> X \<Longrightarrow> 0 < b \<Longrightarrow> b \<le> 255 \<Longrightarrow> \<not> X \<le> \<bar>31 * b\<bar>"
  by simp

lemma no_overflow_byte: "0 < b \<Longrightarrow> b \<le> 255 \<Longrightarrow> \<not> float_overflows (31 * b)"
  unfolding float_overflows_def by (rule below_bound [OF double_range_bound])

lemma index_in_range:
  assumes "0 < b" and "b \<le> 255"
  shows "0 \<le> (31 * b) div 256 \<and> (31 * b) div 256 \<le> (30::int)"
proof -
  have "0 \<le> 31 * b" using assms by simp
  then have lo: "0 \<le> (31 * b) div 256"
    by (simp add: pos_imp_zdiv_nonneg_iff)
  have "31 * b \<le> 31 * 255" using assms by simp
  then have "(31 * b) div 256 \<le> (31 * 255) div 256"
    by (rule zdiv_mono1) simp
  then have "(31 * b) div 256 \<le> 30" by simp
  with lo show ?thesis by simp
qed

lemma color_picker_byte:
  assumes "0 < b" "b \<le> 255"
  shows "color_picker (built_parser binary r) b
           = Inr (rotated_palette r ! nat ((31 * b) div 256))"
  using assms index_in_range [OF assms] no_overflow_byte [OF assms]
  by (simp add: color_picker_def deque_getitem_def int_truediv_256_def)

lemma color_picker_byte_in_ramp:
  assumes "0 < b" "b \<le> 255"
  shows "\<exists>c \<in> set base_palette. color_picker (built_parser binary r) b = Inr c"
proof -
  have "nat ((31 * b) div 256) < length (rotated_palette r)"
    using index_in_range [OF assms] by (simp only: length_rotated) linarith
  then have "rotated_palette r ! nat ((31 * b) div 256) \<in> set (rotated_palette r)"
    by (rule nth_mem)
  then show ?thesis
    using color_picker_byte [OF assms] by (simp add: set_rotated)
qed

lemma rotate_period: "rotated_palette (r + 31 * k) = rotated_palette r"
  by (simp add: rotated_eq)

lemma built_color_picker_zero:
  "color_picker (built_parser binary r) 0 = Inr null_color
   \<and> null_color = 59 \<and> length base_palette = 31 \<and> null_color \<notin> set base_palette
   \<and> (\<forall>b. 0 < b \<and> b \<le> 255 \<longrightarrow>
         color_picker (built_parser binary r) b \<noteq> Inr null_color)"
proof -
  have "color_picker (built_parser binary r) 0 = Inr null_color"
    by (simp add: color_picker_def)
  moreover have "color_picker (built_parser binary r) b \<noteq> Inr null_color"
    if "0 < b \<and> b \<le> 255" for b
    using color_picker_byte_in_ramp [of b binary r] that null_color_not_in_ramp by auto
  ultimately show ?thesis
    using null_color_not_in_ramp length_base_palette by (simp add: null_color_def)
qed

lemma built_color_picker_index:
  assumes "0 < b" and "b \<le> 255"
  shows "color_picker (built_parser binary r) b
           = Inr (palette (built_parser binary r)
                    ! nat (max 0 (min 30 ((31 * b) div 256))))
         \<and> 0 \<le> (31 * b) div 256 \<and> (31 * b) div 256 \<le> 30
         \<and> length (palette (built_parser binary r)) = 31"
  using color_picker_byte [OF assms, of binary r] index_in_range [OF assms]
  by simp

lemma built_rotation_periodic:
  "built_parser binary (r + 31 * k) = built_parser binary r"
  by (simp add: built_parser_def rotate_period)

lemma rotation_in_range: "- (2 ^ 63) < r \<Longrightarrow> r \<le> 2 ^ 63 \<Longrightarrow> fits_ssize_t (- r)"
  by (simp add: fits_ssize_t_def)

lemma GradientPalette_init_in_range:
  assumes "- (2 ^ 63) < r" and "r \<le> 2 ^ 63"
  shows "GradientPalette_init binary r = Inr (built_parser binary r)"
  using rotation_in_range [OF assms] by (simp add: GradientPalette_init_eq)

lemma GradientPalette_init_zero: "GradientPalette_init False 0 = Inr (built_parser False 0)"
  by (rule GradientPalette_init_in_range) simp_all

lemma built_parser_zero:
  "built_parser False 0 = \<lparr>base = 16, regex = regex_hex, palette = base_palette\<rparr>"
  by (simp add: built_parser_def XXDParser_init_def rotated_eq)










section \<open>Properties of the token colorizer\<close>

lemma hex_char_facts:
  assumes "in_class regex_hex c"
  shows "digit_value c < 16" "\<not> c_isspace c" "\<not> py_isspace c" "c \<noteq> CHR ''+''"
    "c \<noteq> CHR ''-''" "c \<noteq> CHR ''_''" "(of_char c :: nat) < 128" "\<not> base_mark 16 c"
    "c \<noteq> CHR 0x20"
  using assms
  by (auto simp: in_range_def digit_value_def c_isspace_def py_isspace_def base_mark_def)

lemma py_int_token:
  assumes "in_class regex_hex c" and "in_class regex_hex d"
  shows "py_int [c, d] 16 = Inr (int (digit_value c) * 16 + int (digit_value d))"
  using hex_char_facts [OF assms(1)] hex_char_facts [OF assms(2)]
  by (simp add: py_int_def to_ascii_def skip_sign_def skip_base_mark_def
      digit_or_underscore_def well_grouped_def digits_value_def sublist_Cons_right)

lemma all_dropWhile: "(\<forall>x \<in> set (dropWhile P s). P x) \<longleftrightarrow> (\<forall>x \<in> set s. P x)"
  by (induction s) auto

lemma py_strip_Nil_iff: "py_strip s = [] \<longleftrightarrow> list_all py_isspace s"
  by (simp add: py_strip_def dropWhile_eq_Nil_conv list_all_iff all_dropWhile)

lemma fragments_of_hex_field:
  assumes "hex_field s" and "blank frag"
  shows "list_all (\<lambda>f. blank f \<or> hex_token f) (re_split_from regex_hex frag s)"
  using assms
proof (induction s arbitrary: frag rule: hex_field.induct)
  case 1
  then show ?case by simp
next
  case (2 c)
  then show ?case by (simp add: re_match_at_def blank_def)
next
  case (3 c d cs)
  show ?case
  proof (cases "c = CHR 0x20")
    case True
    then have nm: "\<not> re_match_at regex_hex (c # d # cs)"
      by (simp add: re_match_at_def in_range_def)
    from True "3.prems" have "hex_field (d # cs)" "blank (frag @ [c])"
      by (simp_all add: blank_def)
    with "3.IH"(1) True have "list_all (\<lambda>f. blank f \<or> hex_token f)
        (re_split_from regex_hex (frag @ [c]) (d # cs))"
      by blast
    with nm show ?thesis by simp
  next
    case False
    with "3.prems" have h: "in_class regex_hex c" "in_class regex_hex d" "hex_field cs"
      by simp_all
    then have m: "re_match_at regex_hex (c # d # cs)"
      by (simp add: re_match_at_def)
    have "blank []" by (simp add: blank_def)
    with "3.IH"(2) False h have "list_all (\<lambda>f. blank f \<or> hex_token f)
        (re_split_from regex_hex [] cs)"
      by blast
    with m h "3.prems"(2) show ?thesis
      by (simp add: hex_token_def)
  qed
qed

lemma color_picker_total_byte:
  assumes "0 \<le> v" and "v \<le> 255"
  shows "\<exists>i. color_picker (built_parser binary r) v = Inr i"
proof (cases "v = 0")
  case True
  then show ?thesis by (simp add: color_picker_def)
next
  case False
  with assms have "0 < v" by simp
  from color_picker_byte [OF this assms(2)] show ?thesis by blast
qed

lemma digit_value_hex: "in_class regex_hex c \<Longrightarrow> digit_value c \<le> 15"
  using hex_char_facts(1) [of c] by simp

lemma hex_token_cases:
  assumes "hex_token f"
  obtains c d where "f = [c, d]" and "in_class regex_hex c" and "in_class regex_hex d"
  using assms by (auto simp: hex_token_def length_Suc_conv numeral_2_eq_2)

lemma py_int_hex_token:
  assumes "hex_token f"
  shows "\<exists>v. py_int f 16 = Inr v \<and> 0 \<le> v \<and> v \<le> 255"
proof -
  from assms obtain c d where f: "f = [c, d]" and h: "in_class regex_hex c" "in_class regex_hex d"
    by (rule hex_token_cases)
  have "int (digit_value c) * 16 + int (digit_value d) \<le> 255"
    using digit_value_hex [OF h(1)] digit_value_hex [OF h(2)] by linarith
  with py_int_token [OF h] f show ?thesis by simp
qed

lemma space_py_isspace: "py_isspace (CHR 0x20)"
  by (simp add: py_isspace_def in_range_def)

lemma blank_strip: "blank f \<Longrightarrow> py_strip f = []"
  unfolding py_strip_Nil_iff blank_def
  by (induction f) (simp_all add: space_py_isspace)

lemma base_built [simp]: "base (built_parser False r) = 16"
  by (simp add: built_parser_def XXDParser_init_def)

lemma regex_built [simp]: "regex (built_parser False r) = regex_hex"
  by (simp add: built_parser_def XXDParser_init_def)

lemma map_color_total:
  assumes "blank f \<or> hex_token f"
  shows "\<exists>out. map_color (built_parser False r) pixelate f = Inr out"
proof (cases "py_strip f = []")
  case True
  then show ?thesis by (simp add: map_color_def)
next
  case False
  with assms blank_strip have "hex_token f" by blast
  from py_int_hex_token [OF this] obtain v where
    v: "py_int f 16 = Inr v" "0 \<le> v" "v \<le> 255" by blast
  from color_picker_total_byte [OF v(2) v(3)] obtain i where
    "color_picker (built_parser False r) v = Inr i" by blast
  with v(1) False show ?thesis by (simp add: map_color_def)
qed

lemma join_colored_total:
  "list_all (\<lambda>f. \<exists>out. g f = Inr out) fs \<Longrightarrow> \<exists>out. join_colored g fs = Inr out"
  by (induction fs) auto

lemma parse_hex_field:
  assumes "hex_field s"
  shows "\<exists>out. parse (built_parser False r) s pixelate = Inr out"
proof -
  have "blank []" by (simp add: blank_def)
  from fragments_of_hex_field [OF assms this]
  have "list_all (\<lambda>f. \<exists>out. map_color (built_parser False r) pixelate f = Inr out)
          (re_split regex_hex s)"
    unfolding re_split_def by (rule list.pred_mono_strong) (rule map_color_total)
  from join_colored_total [OF this] show ?thesis by (simp add: parse_def)
qed

section \<open>Splitting a line at its separators\<close>

lemma prefix_append_short:
  assumes "length xs \<le> length ys" and "prefix xs (ys @ zs)"
  shows "prefix xs ys"
proof -
  have "prefix ys (ys @ zs)" by simp
  with assms(2) show ?thesis using assms(1) by (rule prefix_length_prefix)
qed

lemma split1_first:
  assumes "sep \<noteq> []" and "\<not> sublist sep (a @ butlast sep)"
  shows "split1 sep (a @ sep @ b) = [a, b]"
  using assms(2)
proof (induction a)
  case Nil
  from assms(1) obtain x xs where sep: "sep = x # xs" by (cases sep) auto
  have "split1 sep (sep @ b) = [[], drop (length sep) (sep @ b)]"
    unfolding sep by simp
  then show ?case by simp
next
  case (Cons y a)
  have len: "length sep \<le> length ((y # a) @ butlast sep)"
    using assms(1) by (cases sep) auto
  have np: "\<not> prefix sep (y # a @ sep @ b)"
  proof
    assume p: "prefix sep (y # a @ sep @ b)"
    have "y # a @ sep @ b = ((y # a) @ butlast sep) @ [last sep] @ b"
      using assms(1) by simp
    with p have "prefix sep (((y # a) @ butlast sep) @ [last sep] @ b)" by simp
    with len have "prefix sep ((y # a) @ butlast sep)"
      by (rule prefix_append_short)
    then have "sublist sep ((y # a) @ butlast sep)" by (rule prefix_imp_sublist)
    with Cons.prems show False by blast
  qed
  from Cons.prems have "\<not> sublist sep (a @ butlast sep)"
    by (auto simp: sublist_Cons_right)
  with Cons.IH have "split1 sep (a @ sep @ b) = [a, b]" by blast
  with np show ?case by simp
qed

lemma split1_absent: "\<not> sublist sep s \<Longrightarrow> split1 sep s = [s]"
proof (induction s)
  case Nil
  then show ?case by simp
next
  case (Cons c cs)
  then have "\<not> prefix sep (c # cs)" "\<not> sublist sep cs"
    by (auto simp: sublist_Cons_right)
  with Cons.IH show ?case by simp
qed

lemma format_line_record:
  assumes "line = address @ address_separator @ hex_data @ hex_separator @ ascii_data"
    and "\<not> sublist address_separator (address @ '':'')"
    and "\<not> sublist hex_separator (hex_data @ '' '')"
  shows "format_line line colorizer =
           (case colorizer hex_data of
              Inl e \<Rightarrow> Inl e
            | Inr colored \<Rightarrow>
                Inr (address @ address_separator @ colored @ hex_separator
                     @ butlast ascii_data))"
proof -
  have a: "split1 address_separator line = [address, hex_data @ hex_separator @ ascii_data]"
    unfolding assms(1) using assms(2)
    by (intro split1_first) (simp_all add: address_separator_def)
  have h: "split1 hex_separator (hex_data @ hex_separator @ ascii_data) = [hex_data, ascii_data]"
    using assms(3) by (intro split1_first) (simp_all add: hex_separator_def)
  have "length line \<ge> 4"
    unfolding assms(1) by (simp add: address_separator_def hex_separator_def)
  then have "line \<noteq> [CHR ''*'', NL]" by auto
  with a h show ?thesis by (simp add: format_line_def)
qed

lemma format_line_no_address:
  assumes "line \<noteq> [CHR ''*'', NL]" and "\<not> sublist address_separator line"
  shows "format_line line colorizer = Inl ValueError"
  using assms split1_absent [of address_separator line]
  by (simp add: format_line_def)

lemma format_line_no_hex:
  assumes "line = address @ address_separator @ hex_ascii"
    and "\<not> sublist address_separator (address @ '':'')"
    and "\<not> sublist hex_separator hex_ascii"
    and "line \<noteq> [CHR ''*'', NL]"
  shows "format_line line colorizer = Inl ValueError"
proof -
  have a: "split1 address_separator line = [address, hex_ascii]"
    unfolding assms(1) using assms(2)
    by (intro split1_first) (simp_all add: address_separator_def)
  with assms(4) split1_absent [OF assms(3)] show ?thesis
    by (simp add: format_line_def)
qed

section \<open>Stripping the color markers\<close>

lemma marker_length_plain: "c \<noteq> ESC \<Longrightarrow> marker_length (c # cs) = 0"
  by (simp add: marker_length_def)

lemma strip_plain: "ESC \<notin> set s \<Longrightarrow> strip_markers (s @ t) = s @ strip_markers t"
proof (induction s)
  case Nil
  show ?case by simp
next
  case (Cons c s)
  then have "c \<noteq> ESC" by auto
  then have "marker_length (c # s @ t) = 0" by (rule marker_length_plain)
  with Cons show ?case by simp
qed

lemma strip_reset: "strip_markers (ESC # ''[0m'' @ t) = strip_markers t"
  by (simp add: marker_length_def)

lemma digit_chars: "list_all is_digit ''0123456789''"
  by (simp add: is_digit_def in_range_def)

lemma digit_nth: "k < 10 \<Longrightarrow> is_digit (''0123456789'' ! k)"
  using digit_chars unfolding list_all_length by simp

lemma decimal_digits: "list_all is_digit (decimal n) \<and> decimal n \<noteq> []"
proof (induction n rule: decimal.induct)
  case (1 n)
  show ?case
  proof (cases "n < 10")
    case True
    then show ?thesis by (simp add: decimal.simps [of n] digit_nth)
  next
    case False
    with 1 show ?thesis by (simp add: decimal.simps [of n] digit_nth)
  qed
qed

lemma takeWhile_digits:
  "list_all is_digit ds \<Longrightarrow> takeWhile is_digit (ds @ CHR ''m'' # t) = ds"
  by (induction ds) (simp_all add: is_digit_def in_range_def)

lemma drop_seven:
  "drop (7 + n) (a1 # a2 # a3 # a4 # a5 # a6 # a7 # xs) = drop n xs"
  by (simp add: eval_nat_numeral)

lemma drop_six:
  "drop (7 + n) (a1 # a2 # a3 # a4 # a5 # a6 # xs) = drop (Suc n) xs"
  by (simp add: eval_nat_numeral)

lemma marker_length_color:
  assumes "list_all is_digit ds" and "ds \<noteq> []"
  shows "marker_length (ESC # ''[38;5;'' @ ds @ CHR ''m'' # t) = 8 + length ds"
  using assms by (simp add: marker_length_def takeWhile_digits drop_seven)

lemma strip_color_mark:
  assumes "list_all is_digit ds" and "ds \<noteq> []"
  shows "strip_markers (ESC # ''[38;5;'' @ ds @ CHR ''m'' # t) = strip_markers t"
proof -
  have "strip_markers (ESC # (''[38;5;'' @ ds @ CHR ''m'' # t))
          = strip_markers (drop (8 + length ds - 1) (''[38;5;'' @ ds @ CHR ''m'' # t))"
    using marker_length_color [OF assms, of t]
    by (simp del: drop_Suc_Cons)
  also have "drop (8 + length ds - 1) (''[38;5;'' @ ds @ CHR ''m'' # t) = t"
    by (simp add: drop_six)
  finally show ?thesis by simp
qed

lemma strip_colorize:
  assumes "0 \<le> i" and "ESC \<notin> set s"
  shows "strip_markers (colorize s i @ t) = s @ strip_markers t"
proof -
  have d: "list_all is_digit (format_d i)" "format_d i \<noteq> []"
    using assms(1) decimal_digits [of "nat i"] by (simp_all add: format_d_def)
  have "colorize s i @ t = ESC # ''[38;5;'' @ format_d i @ CHR ''m'' # (s @ ESC # ''[0m'' @ t)"
    by (simp add: colorize_def)
  then have "strip_markers (colorize s i @ t) = strip_markers (s @ ESC # ''[0m'' @ t)"
    using strip_color_mark [OF d] by simp
  also have "\<dots> = s @ strip_markers (ESC # ''[0m'' @ t)"
    using assms(2) by (rule strip_plain)
  also have "\<dots> = s @ strip_markers t"
    by (simp only: strip_reset)
  finally show ?thesis .
qed

lemma c_isspace_plain: "c_isspace c \<Longrightarrow> plain_char c"
  by (auto simp: c_isspace_def plain_char_def in_range_def)

lemma digit_plain: "digit_or_underscore b c \<Longrightarrow> b \<le> 36 \<Longrightarrow> plain_char c"
  by (auto simp: digit_or_underscore_def plain_char_def digit_value_def in_range_def)

lemma skip_sign_all:
  assumes "skip_sign s0 = (n, s)" and "list_all plain_char s"
  shows "list_all plain_char s0"
  using assms
  by (auto simp: skip_sign_def plain_char_def split: list.splits if_splits)

lemma skip_base_mark_all:
  assumes "list_all plain_char (skip_base_mark b s)"
  shows "list_all plain_char s"
  using assms
  by (auto simp: skip_base_mark_def base_mark_def plain_char_def split: list.splits if_splits)

lemma list_all_take_drop:
  assumes "list_all P (takeWhile Q xs)" and "list_all P (dropWhile Q xs)"
  shows "list_all P xs"
proof -
  have "list_all P (takeWhile Q xs @ dropWhile Q xs)"
    using assms by (simp del: takeWhile_dropWhile_id)
  then show ?thesis by simp
qed

lemma list_all_takeWhile: "(\<And>x. Q x \<Longrightarrow> P x) \<Longrightarrow> list_all P (takeWhile Q xs)"
  by (induction xs) simp_all

lemma list_all_dropWhile_Nil:
  "dropWhile Q xs = [] \<Longrightarrow> (\<And>x. Q x \<Longrightarrow> P x) \<Longrightarrow> list_all P xs"
  by (simp add: dropWhile_eq_Nil_conv list_all_iff)

lemma py_int_plain:
  assumes "py_int u b = Inr v" and "b \<le> 36"
  shows "list_all plain_char (to_ascii u)"
proof -
  obtain negative s where ss: "skip_sign (dropWhile c_isspace (to_ascii u)) = (negative, s)"
    by (cases "skip_sign (dropWhile c_isspace (to_ascii u))")
  let ?body = "skip_base_mark b s"
  from assms(1) ss have
    rest: "dropWhile c_isspace (dropWhile (digit_or_underscore b) ?body) = []"
    by (simp add: py_int_def Let_def split: if_splits)
  have "list_all plain_char (dropWhile (digit_or_underscore b) ?body)"
    using rest c_isspace_plain by (rule list_all_dropWhile_Nil)
  moreover have "list_all plain_char (takeWhile (digit_or_underscore b) ?body)"
    using digit_plain [OF _ assms(2)] by (rule list_all_takeWhile)
  ultimately have "list_all plain_char ?body"
    by (rule list_all_take_drop [rotated])
  then have "list_all plain_char s" by (rule skip_base_mark_all)
  with ss have "list_all plain_char (dropWhile c_isspace (to_ascii u))"
    by (rule skip_sign_all)
  moreover have "list_all plain_char (takeWhile c_isspace (to_ascii u))"
    using c_isspace_plain by (rule list_all_takeWhile)
  ultimately show ?thesis by (rule list_all_take_drop [rotated])
qed

lemma to_ascii_from_keeps:
  "ESC \<in> set u \<Longrightarrow> \<not> list_all plain_char (to_ascii_from u)"
  by (induction u) (auto simp: plain_char_def)

lemma to_ascii_keeps: "ESC \<in> set u \<Longrightarrow> \<not> list_all plain_char (to_ascii u)"
  using to_ascii_from_keeps [of u]
  by (auto simp: to_ascii_def plain_char_def list_all_iff)

lemma py_int_no_escape:
  assumes "py_int u b = Inr v" and "b \<le> 36"
  shows "ESC \<notin> set u"
  using py_int_plain [OF assms] to_ascii_keeps [of u] by blast

lemma blank_no_escape: "py_strip f = [] \<Longrightarrow> ESC \<notin> set f"
  by (auto simp: py_strip_Nil_iff list_all_iff py_isspace_def in_range_def)

lemma deque_getitem_mem: "deque_getitem xs k = Inr x \<Longrightarrow> x \<in> set xs"
  by (auto simp: deque_getitem_def split: if_splits)

lemma base_palette_nonneg: "list_all (\<lambda>x. 0 \<le> x) base_palette"
  by (simp add: base_palette_def)

lemma color_picker_nonneg:
  assumes "color_picker (built_parser binary r) v = Inr i"
  shows "0 \<le> i"
proof (cases "v = 0")
  case True
  with assms show ?thesis by (simp add: color_picker_def null_color_def)
next
  case False
  with assms have "i \<in> set (rotated_palette r)"
    by (auto simp: color_picker_def split: if_splits dest: deque_getitem_mem)
  then have "i \<in> set base_palette" by (simp add: set_rotated)
  with base_palette_nonneg show ?thesis by (simp add: list_all_iff)
qed

lemma base_built_le: "base (built_parser binary r) \<le> 36"
  by (simp add: built_parser_def XXDParser_init_def)

lemma map_color_strip:
  assumes "map_color (built_parser binary r) False f = Inr g"
  shows "strip_markers (g @ t) = f @ strip_markers t"
proof (cases "py_strip f = []")
  case True
  with assms have "g = f" by (simp add: map_color_def)
  with blank_no_escape [OF True] show ?thesis by (simp add: strip_plain)
next
  case False
  with assms obtain v i where
    v: "py_int f (base (built_parser binary r)) = Inr v" and
    i: "color_picker (built_parser binary r) v = Inr i" and
    g: "g = colorize f i"
    by (auto simp: map_color_def split: sum.splits)
  from py_int_no_escape [OF v base_built_le] color_picker_nonneg [OF i] g
  show ?thesis by (simp add: strip_colorize)
qed

lemma join_colored_strip:
  assumes "join_colored (map_color (built_parser binary r) False) fs = Inr out"
  shows "strip_markers (out @ t) = concat fs @ strip_markers t"
  using assms
proof (induction fs arbitrary: out)
  case Nil
  then show ?case by simp
next
  case (Cons f fs)
  then obtain g rest where
    g: "map_color (built_parser binary r) False f = Inr g" and
    rest: "join_colored (map_color (built_parser binary r) False) fs = Inr rest" and
    out: "out = g @ rest"
    by (auto split: sum.splits)
  from map_color_strip [OF g, of "rest @ t"] Cons.IH [OF rest] out
  show ?case by simp
qed

lemma parse_strip:
  assumes "parse (built_parser binary r) s False = Inr out"
  shows "strip_markers out = s"
  using join_colored_strip [of binary r _ out "[]"] assms
  by (simp add: parse_def re_split_def concat_re_split_from)

section \<open>A sample line\<close>

lemma re_split_41: "re_split regex_hex ''41'' = [[], ''41'', []]"
  by (simp add: re_split_def re_match_at_def in_range_def)

lemma py_int_41: "py_int ''41'' 16 = Inr 65"
proof -
  have "in_class regex_hex CHR ''4''" "in_class regex_hex CHR ''1''"
    by (simp_all add: in_range_def)
  from py_int_token [OF this] show ?thesis
    by (simp add: digit_value_def in_range_def)
qed

lemma color_picker_65: "color_picker (built_parser False 0) 65 = Inr 221"
proof -
  have "(0::int) < 65" "(65::int) \<le> 255" by simp_all
  from color_picker_byte [OF this, of False 0] show ?thesis
    by (simp add: rotated_nth base_palette_def)
qed

lemma py_strip_41: "py_strip ''41'' \<noteq> []"
  by (simp add: py_strip_Nil_iff py_isspace_def in_range_def)

lemma py_strip_empty: "py_strip [] = []"
  by (simp add: py_strip_def)

lemma map_color_41:
  "map_color (built_parser False 0) False ''41'' = Inr (colorize ''41'' 221)"
  using py_strip_41 by (simp add: map_color_def py_int_41 color_picker_65)

lemma map_color_empty: "map_color self pixelate [] = Inr []"
  by (simp add: map_color_def py_strip_empty)

lemma main_colorizer_41: "main_colorizer (built_parser False 0) False ''41'' = Inr (colorize ''41'' 221)"
  by (simp add: main_colorizer_def parse_def re_split_41 map_color_41 map_color_empty)

lemma no_address_separator_in_sample: "\<not> sublist '': '' ''00000000:''"
  by (simp add: sublist_Cons_right)

lemma no_hex_separator_in_sample: "\<not> sublist ''  '' ''41 ''"
  by (simp add: sublist_Cons_right)

lemma colorize_41: "colorize ''41'' 221 = ESC # ''[38;5;221m41'' @ ESC # ''[0m''"
  by (simp add: colorize_def format_d_def decimal.simps)

section \<open>The claims about lines, parsing and construction\<close>

lemma parse_strip_append:
  assumes "parse (built_parser binary r) s False = Inr out"
  shows "strip_markers (out @ t) = s @ strip_markers t"
  using join_colored_strip [of binary r _ out t] assms
  by (simp add: parse_def re_split_def concat_re_split_from)

lemma strip_plain_whole: "ESC \<notin> set s \<Longrightarrow> strip_markers s = s"
  using strip_plain [of s "[]"] by simp

lemma separators_plain: "ESC \<notin> set address_separator" "ESC \<notin> set hex_separator"
  by (simp_all add: address_separator_def hex_separator_def)

lemma strip_output:
  assumes "parse (built_parser binary r) hex_data False = Inr colored"
    and "ESC \<notin> set address" and "ESC \<notin> set rest"
  shows "strip_markers (address @ address_separator @ colored @ hex_separator @ rest)
           = address @ address_separator @ hex_data @ hex_separator @ rest"
proof -
  have "ESC \<notin> set (address @ address_separator)"
    using assms(2) separators_plain by simp
  then have "strip_markers ((address @ address_separator) @ colored @ hex_separator @ rest)
      = (address @ address_separator) @ strip_markers (colored @ hex_separator @ rest)"
    by (rule strip_plain)
  also have "strip_markers (colored @ hex_separator @ rest)
      = hex_data @ strip_markers (hex_separator @ rest)"
    using assms(1) by (rule parse_strip_append)
  also have "strip_markers (hex_separator @ rest) = hex_separator @ rest"
    using assms(3) separators_plain by (intro strip_plain_whole) simp
  finally show ?thesis by simp
qed

lemma re_split_4g: "re_split regex_hex ''4g'' = [''4g'']"
  by (simp add: re_split_def re_match_at_def in_range_def)

lemma py_int_4g: "py_int ''4g'' 16 = Inl ValueError"
  by (simp add: py_int_def to_ascii_def skip_sign_def skip_base_mark_def base_mark_def
      digit_or_underscore_def digit_value_def in_range_def c_isspace_def)

lemma py_strip_4g: "py_strip ''4g'' \<noteq> []"
  by (simp add: py_strip_Nil_iff py_isspace_def in_range_def)

lemma main_colorizer_4g:
  "main_colorizer (built_parser False 0) False ''4g'' = Inl ValueError"
  using py_strip_4g
  by (simp add: main_colorizer_def parse_def re_split_4g map_color_def py_int_4g)

lemma no_hex_separator_in_4g: "\<not> sublist ''  '' ''4g ''"
  by (simp add: sublist_Cons_right)

text \<open>
  C1, as amended. For a record line \<open>address @ ": " @ hex_data @ "  " @ ascii_data\<close>, cut
  at the first \<open>": "\<close> and at the first two spaces behind it, on whose hex field the
  colorizer of \<open>main\<close> (over a parser the constructor returned, pixelate off) returns:
  \<open>format_line\<close> returns the address, the separators and the colored hex field unchanged
  in place, and the text field without its last character; stripping the color markers
  from the colored hex field gives the input hex field, and, when address and text field
  hold no escape character, stripping them from the output gives the input line without
  its last character.
\<close>

theorem format_line_columns:
  assumes "line = address @ address_separator @ hex_data @ hex_separator @ ascii_data"
    and "\<not> sublist address_separator (address @ '':'')"
    and "\<not> sublist hex_separator (hex_data @ '' '')"
    and "GradientPalette_init False r = Inr parser"
    and "main_colorizer parser False hex_data = Inr colored"
  shows "format_line line (main_colorizer parser False)
           = Inr (address @ address_separator @ colored @ hex_separator @ butlast ascii_data)
         \<and> strip_markers colored = hex_data
         \<and> (ESC \<notin> set address \<and> ESC \<notin> set ascii_data \<longrightarrow>
              strip_markers
                (address @ address_separator @ colored @ hex_separator @ butlast ascii_data)
              = address @ address_separator @ hex_data @ hex_separator @ butlast ascii_data)"
proof -
  have b: "parser = built_parser False r"
    using assms(4) by (rule GradientPalette_init_Inr)
  have p: "parse (built_parser False r) hex_data False = Inr colored"
    using assms(5) b by (simp add: main_colorizer_def)
  have "format_line line (main_colorizer parser False)
           = Inr (address @ address_separator @ colored @ hex_separator @ butlast ascii_data)"
    using format_line_record [OF assms(1-3), of "main_colorizer parser False"] assms(5)
    by simp
  moreover have "strip_markers colored = hex_data"
    using p by (rule parse_strip)
  moreover have "strip_markers
        (address @ address_separator @ colored @ hex_separator @ butlast ascii_data)
      = address @ address_separator @ hex_data @ hex_separator @ butlast ascii_data"
    if "ESC \<notin> set address \<and> ESC \<notin> set ascii_data"
  proof -
    from that have "ESC \<notin> set (butlast ascii_data)"
      by (auto dest: in_set_butlastD)
    with that strip_output [OF p] show ?thesis by blast
  qed
  ultimately show ?thesis by blast
qed

theorem format_line_columns_witness:
  "GradientPalette_init False 0 = Inr (built_parser False 0)
   \<and> format_line (''00000000: 41  A'' @ [NL]) (main_colorizer (built_parser False 0) False)
     = Inr (''00000000: '' @ colorize ''41'' 221 @ ''  A'')
   \<and> strip_markers (colorize ''41'' 221) = ''41''
   \<and> strip_markers (''00000000: '' @ colorize ''41'' 221 @ ''  A'') = ''00000000: 41  A''"
proof -
  have l: "''00000000: 41  A'' @ [NL]
      = ''00000000'' @ address_separator @ ''41'' @ hex_separator @ (''A'' @ [NL])"
    by (simp add: address_separator_def hex_separator_def)
  have a: "\<not> sublist address_separator (''00000000'' @ '':'')"
    using no_address_separator_in_sample by (simp add: address_separator_def)
  have h: "\<not> sublist hex_separator (''41'' @ '' '')"
    using no_hex_separator_in_sample by (simp add: hex_separator_def)
  from format_line_columns [OF l a h GradientPalette_init_zero main_colorizer_41]
    GradientPalette_init_zero
  show ?thesis
    by (simp add: address_separator_def hex_separator_def)
qed

text \<open>
  C1, as stated, fails: on the record line \<open>00000000: 41  A\<close> with its newline the
  output keeps the address and colors the byte, but its text field is \<open>A\<close> without the
  newline, so the output with the markers stripped is not the input line.
\<close>

theorem format_line_columns_counterexample:
  "GradientPalette_init False 0 = Inr (built_parser False 0)
   \<and> format_line (''00000000: 41  A'' @ [NL]) (main_colorizer (built_parser False 0) False)
     = Inr (''00000000: '' @ ESC # ''[38;5;221m41'' @ ESC # ''[0m  A'')
   \<and> strip_markers (''00000000: '' @ ESC # ''[38;5;221m41'' @ ESC # ''[0m  A'')
     = ''00000000: 41  A''
   \<and> ''00000000: 41  A'' \<noteq> ''00000000: 41  A'' @ [NL]"
proof -
  have l: "''00000000: 41  A'' @ [NL]
      = ''00000000'' @ address_separator @ ''41'' @ hex_separator @ (''A'' @ [NL])"
    by (simp add: address_separator_def hex_separator_def)
  have a: "\<not> sublist address_separator (''00000000'' @ '':'')"
    using no_address_separator_in_sample by (simp add: address_separator_def)
  have h: "\<not> sublist hex_separator (''41'' @ '' '')"
    using no_hex_separator_in_sample by (simp add: hex_separator_def)
  have f: "format_line (''00000000: 41  A'' @ [NL]) (main_colorizer (built_parser False 0) False)
     = Inr (''00000000: '' @ colorize ''41'' 221 @ ''  A'')"
    using format_line_record [OF l a h, of "main_colorizer (built_parser False 0) False"]
    by (simp add: main_colorizer_41 address_separator_def hex_separator_def)
  have p: "parse (built_parser False 0) ''41'' False = Inr (colorize ''41'' 221)"
    using main_colorizer_41 by (simp add: main_colorizer_def)
  have "strip_markers (''00000000'' @ address_separator @ colorize ''41'' 221
          @ hex_separator @ ''A'')
      = ''00000000'' @ address_separator @ ''41'' @ hex_separator @ ''A''"
    using p by (rule strip_output) simp_all
  then have s: "strip_markers (''00000000: '' @ colorize ''41'' 221 @ ''  A'')
      = ''00000000: 41  A''"
    by (simp add: address_separator_def hex_separator_def)
  from f s GradientPalette_init_zero show ?thesis by (simp add: colorize_41)
qed

text \<open>
  C3. A line other than the elision marker that holds no \<open>": "\<close>, or that holds it but
  has no two spaces behind its first occurrence, makes \<open>format_line\<close> raise
  \<open>ValueError\<close>, whatever the colorizer; no string is returned.
\<close>

theorem format_line_malformed:
  assumes "line \<noteq> [CHR ''*'', NL]"
    and "\<not> sublist address_separator line
         \<or> (\<exists>address hex_ascii.
               line = address @ address_separator @ hex_ascii
               \<and> \<not> sublist address_separator (address @ '':'')
               \<and> \<not> sublist hex_separator hex_ascii)"
  shows "format_line line colorizer = Inl ValueError"
  using assms(2)
proof
  assume "\<not> sublist address_separator line"
  with assms(1) show ?thesis by (rule format_line_no_address)
next
  assume "\<exists>address hex_ascii.
      line = address @ address_separator @ hex_ascii
      \<and> \<not> sublist address_separator (address @ '':'')
      \<and> \<not> sublist hex_separator hex_ascii"
  then obtain address hex_ascii where
    "line = address @ address_separator @ hex_ascii"
    "\<not> sublist address_separator (address @ '':'')"
    "\<not> sublist hex_separator hex_ascii"
    by blast
  then show ?thesis using assms(1) by (rule format_line_no_hex)
qed

theorem format_line_malformed_witness:
  "format_line ''00000000 4142'' (main_colorizer (built_parser False 0) False)
     = Inl ValueError
   \<and> format_line ''00000000: 4142 A'' (main_colorizer (built_parser False 0) False)
     = Inl ValueError"
proof -
  have "\<not> sublist address_separator ''00000000 4142''"
    by (simp add: address_separator_def sublist_Cons_right)
  then have "\<not> sublist address_separator ''00000000 4142''
      \<or> (\<exists>address hex_ascii.
            ''00000000 4142'' = address @ address_separator @ hex_ascii
            \<and> \<not> sublist address_separator (address @ '':'')
            \<and> \<not> sublist hex_separator hex_ascii)"
    by (rule disjI1)
  then have first:
    "format_line ''00000000 4142'' (main_colorizer (built_parser False 0) False)
       = Inl ValueError"
    by (intro format_line_malformed) simp
  have "''00000000: 4142 A'' = ''00000000'' @ address_separator @ ''4142 A''
      \<and> \<not> sublist address_separator (''00000000'' @ '':'')
      \<and> \<not> sublist hex_separator ''4142 A''"
    by (simp add: address_separator_def hex_separator_def sublist_Cons_right)
  then have "\<not> sublist address_separator ''00000000: 4142 A''
      \<or> (\<exists>address hex_ascii.
            ''00000000: 4142 A'' = address @ address_separator @ hex_ascii
            \<and> \<not> sublist address_separator (address @ '':'')
            \<and> \<not> sublist hex_separator hex_ascii)"
    by blast
  then have
    "format_line ''00000000: 4142 A'' (main_colorizer (built_parser False 0) False)
       = Inl ValueError"
    by (intro format_line_malformed) simp
  with first show ?thesis by simp
qed

text \<open>
  C9. On a hex field of the documented grammar (pairs of hex digits and spaces), every
  fragment of the tokenizer that is not blank after trimming is read by \<open>int(_, 16)\<close>
  as a value from 0 to 255, and \<open>parse\<close> of every hex-mode parser the constructor
  returns, whatever the rotation, gives back a string: it does not raise, with pixelate
  on or off.
\<close>

theorem parse_total_on_hex_field:
  assumes "hex_field s" and "GradientPalette_init False r = Inr self"
  shows "list_all (\<lambda>f. py_strip f = [] \<or> (\<exists>v. py_int f 16 = Inr v \<and> 0 \<le> v \<and> v \<le> 255))
           (re_split regex_hex s)
         \<and> (\<exists>out. parse self s pixelate = Inr out)"
proof -
  have b: "self = built_parser False r"
    using assms(2) by (rule GradientPalette_init_Inr)
  have "blank []" by (simp add: blank_def)
  from fragments_of_hex_field [OF assms(1) this]
  have "list_all (\<lambda>f. blank f \<or> hex_token f) (re_split regex_hex s)"
    by (simp add: re_split_def)
  then have "list_all (\<lambda>f. py_strip f = [] \<or> (\<exists>v. py_int f 16 = Inr v \<and> 0 \<le> v \<and> v \<le> 255))
           (re_split regex_hex s)"
  proof (rule list.pred_mono_strong)
    fix f
    assume "blank f \<or> hex_token f"
    then show "py_strip f = [] \<or> (\<exists>v. py_int f 16 = Inr v \<and> 0 \<le> v \<and> v \<le> 255)"
      using blank_strip [of f] py_int_hex_token [of f] by blast
  qed
  with parse_hex_field [OF assms(1), of r pixelate] b show ?thesis by blast
qed

theorem parse_total_on_hex_field_witness:
  "hex_field ''4865 6c6c 0a''
   \<and> GradientPalette_init False 0 = Inr (built_parser False 0)
   \<and> (\<exists>out. parse (built_parser False 0) ''4865 6c6c 0a'' True = Inr out)"
proof -
  have h: "hex_field ''4865 6c6c 0a''"
    by (simp add: in_range_def)
  from parse_total_on_hex_field [OF h GradientPalette_init_zero, of True] h
    GradientPalette_init_zero
  show ?thesis by blast
qed

text \<open>
  C10, as amended. \<open>format_line\<close> is not uniformly line-terminated: it returns the
  elision marker with its newline, and a record line on whose hex field the colorizer
  returns without the last character of its text field; when the colorizer raises on
  the hex field, \<open>format_line\<close> raises the same exception and returns nothing. The loop
  of \<open>main\<close> prints each result followed by a newline, so a marker is followed by an
  empty line.
\<close>

theorem format_line_not_uniformly_terminated:
  "format_line [CHR ''*'', NL] c = Inr [CHR ''*'', NL]
   \<and> main_loop c ([CHR ''*'', NL] # ls)
       = (case main_loop c ls of (printed, raised) \<Rightarrow> ([CHR ''*'', NL, NL] @ printed, raised))
   \<and> (line = address @ address_separator @ hex_data @ hex_separator @ ascii_data
        \<and> \<not> sublist address_separator (address @ '':'')
        \<and> \<not> sublist hex_separator (hex_data @ '' '')
        \<and> c hex_data = Inr colored
      \<longrightarrow> format_line line c
            = Inr (address @ address_separator @ colored @ hex_separator @ butlast ascii_data)
          \<and> main_loop c (line # ls)
            = (case main_loop c ls of (printed, raised) \<Rightarrow>
                 (address @ address_separator @ colored @ hex_separator @ butlast ascii_data
                  @ [NL] @ printed, raised)))
   \<and> (line = address @ address_separator @ hex_data @ hex_separator @ ascii_data
        \<and> \<not> sublist address_separator (address @ '':'')
        \<and> \<not> sublist hex_separator (hex_data @ '' '')
        \<and> c hex_data = Inl e
      \<longrightarrow> format_line line c = Inl e \<and> main_loop c (line # ls) = ([], Some e))"
proof -
  have m: "format_line [CHR ''*'', NL] c = Inr [CHR ''*'', NL]"
    by (simp add: format_line_def)
  then have ml: "main_loop c ([CHR ''*'', NL] # ls)
       = (case main_loop c ls of (printed, raised) \<Rightarrow> ([CHR ''*'', NL, NL] @ printed, raised))"
    by (simp split: prod.splits)
  have ok: "format_line line c
            = Inr (address @ address_separator @ colored @ hex_separator @ butlast ascii_data)
          \<and> main_loop c (line # ls)
            = (case main_loop c ls of (printed, raised) \<Rightarrow>
                 (address @ address_separator @ colored @ hex_separator @ butlast ascii_data
                  @ [NL] @ printed, raised))"
    if "line = address @ address_separator @ hex_data @ hex_separator @ ascii_data
        \<and> \<not> sublist address_separator (address @ '':'')
        \<and> \<not> sublist hex_separator (hex_data @ '' '')
        \<and> c hex_data = Inr colored"
  proof -
    from that have "format_line line c
        = Inr (address @ address_separator @ colored @ hex_separator @ butlast ascii_data)"
      using format_line_record [of line address hex_data ascii_data c] by simp
    then show ?thesis by (simp split: prod.splits)
  qed
  have raises: "format_line line c = Inl e \<and> main_loop c (line # ls) = ([], Some e)"
    if "line = address @ address_separator @ hex_data @ hex_separator @ ascii_data
        \<and> \<not> sublist address_separator (address @ '':'')
        \<and> \<not> sublist hex_separator (hex_data @ '' '')
        \<and> c hex_data = Inl e"
  proof -
    from that have "format_line line c = Inl e"
      using format_line_record [of line address hex_data ascii_data c] by simp
    then show ?thesis by simp
  qed
  from m ml ok raises show ?thesis by blast
qed

theorem format_line_not_uniformly_terminated_witness:
  "main_loop (main_colorizer (built_parser False 0) False) [[CHR ''*'', NL]]
     = ([CHR ''*'', NL, NL], None)
   \<and> format_line (''00000000: 41  A'' @ [NL]) (main_colorizer (built_parser False 0) False)
       = Inr (''00000000: '' @ colorize ''41'' 221 @ ''  A'')
   \<and> main_loop (main_colorizer (built_parser False 0) False) [''00000000: 41  A'' @ [NL]]
       = (''00000000: '' @ colorize ''41'' 221 @ ''  A'' @ [NL], None)
   \<and> main_loop (main_colorizer (built_parser False 0) False) [''00000000: 4g  A'' @ [NL]]
       = ([], Some ValueError)"
proof -
  have l: "''00000000: 41  A'' @ [NL]
      = ''00000000'' @ address_separator @ ''41'' @ hex_separator @ (''A'' @ [NL])
      \<and> \<not> sublist address_separator (''00000000'' @ '':'')
      \<and> \<not> sublist hex_separator (''41'' @ '' '')
      \<and> main_colorizer (built_parser False 0) False ''41'' = Inr (colorize ''41'' 221)"
    using no_address_separator_in_sample no_hex_separator_in_sample main_colorizer_41
    by (simp add: address_separator_def hex_separator_def)
  have g: "''00000000: 4g  A'' @ [NL]
      = ''00000000'' @ address_separator @ ''4g'' @ hex_separator @ (''A'' @ [NL])
      \<and> \<not> sublist address_separator (''00000000'' @ '':'')
      \<and> \<not> sublist hex_separator (''4g'' @ '' '')
      \<and> main_colorizer (built_parser False 0) False ''4g'' = Inl ValueError"
    using no_address_separator_in_sample no_hex_separator_in_4g main_colorizer_4g
    by (simp add: address_separator_def hex_separator_def)
  note t = format_line_not_uniformly_terminated
      [of "main_colorizer (built_parser False 0) False" "[]"
        "''00000000: 41  A'' @ [NL]" "''00000000''" "''41''" "''A'' @ [NL]"
        "colorize ''41'' 221"]
  note u = format_line_not_uniformly_terminated
      [of "main_colorizer (built_parser False 0) False" "[]"
        "''00000000: 4g  A'' @ [NL]" "''00000000''" "''4g''" "''A'' @ [NL]" _ ValueError]
  from t have "main_loop (main_colorizer (built_parser False 0) False) [[CHR ''*'', NL]]
      = ([CHR ''*'', NL, NL], None)"
    by simp
  moreover from t l
  have "format_line (''00000000: 41  A'' @ [NL]) (main_colorizer (built_parser False 0) False)
       = Inr (''00000000: '' @ colorize ''41'' 221 @ ''  A'')
     \<and> main_loop (main_colorizer (built_parser False 0) False) [''00000000: 41  A'' @ [NL]]
       = (''00000000: '' @ colorize ''41'' 221 @ ''  A'' @ [NL], None)"
    by (simp add: address_separator_def hex_separator_def)
  moreover from u g
  have "main_loop (main_colorizer (built_parser False 0) False) [''00000000: 4g  A'' @ [NL]]
       = ([], Some ValueError)"
    by blast
  ultimately show ?thesis by simp
qed

text \<open>
  C10, as stated, fails: the record line \<open>00000000: 4g  A\<close> with its newline holds both
  separators, and \<open>format_line\<close> returns no string for it: \<open>int("4g", 16)\<close> raises
  \<open>ValueError\<close> in the colorizer of \<open>main\<close>.
\<close>

theorem format_line_not_uniformly_terminated_counterexample:
  "GradientPalette_init False 0 = Inr (built_parser False 0)
   \<and> ''00000000: 4g  A'' @ [NL] = ''00000000'' @ '': '' @ ''4g'' @ ''  '' @ ''A'' @ [NL]
   \<and> format_line (''00000000: 4g  A'' @ [NL]) (main_colorizer (built_parser False 0) False)
     = Inl ValueError"
proof -
  have l: "''00000000: 4g  A'' @ [NL]
      = ''00000000'' @ address_separator @ ''4g'' @ hex_separator @ (''A'' @ [NL])"
    by (simp add: address_separator_def hex_separator_def)
  have a: "\<not> sublist address_separator (''00000000'' @ '':'')"
    using no_address_separator_in_sample by (simp add: address_separator_def)
  have h: "\<not> sublist hex_separator (''4g'' @ '' '')"
    using no_hex_separator_in_4g by (simp add: hex_separator_def)
  have "format_line (''00000000: 4g  A'' @ [NL]) (main_colorizer (built_parser False 0) False)
      = Inl ValueError"
    using format_line_record [OF l a h, of "main_colorizer (built_parser False 0) False"]
    by (simp add: main_colorizer_4g)
  with GradientPalette_init_zero show ?thesis by simp
qed

text \<open>
  C8. Constructing an \<open>AsciiPalette\<close> always raises \<open>TypeError\<close>: its \<open>__init__\<close> calls
  \<open>super(GradientPalette, self)\<close>, and \<open>GradientPalette\<close> is not among the classes of an
  \<open>AsciiPalette\<close> instance. No instance is returned, for any arguments.
\<close>

theorem AsciiPalette_init_raises:
  "AsciiPalette_init binary rotate_index = Inl TypeError
   \<and> GradientPalette_c \<notin> set (mro AsciiPalette_c)"
  by (simp add: AsciiPalette_init_def py_super_def)

end
